theory Spec2Isabelle
  imports Complex_Main "HOL-Library.AList" "HOL-Library.Sublist"
begin

section \<open>Values of the JavaScript runtime\<close>

text \<open>
  The email agent is TypeScript running on Node. Exceptions are values of the type
  \<open>error\<close>; a function that can throw returns \<open>error + 'a\<close>, and a function that
  also changes the stored state returns that result paired with the state it leaves.
\<close>

datatype error =
    Error string
  | TypeError
  | ApiFailure

text \<open>
  A JavaScript number: a finite value, an infinity or NaN. Every finite double is a real
  number, and the code only compares numbers (it does no arithmetic on them), so a
  statement proved for every \<open>Fin x\<close> holds for every finite double.
\<close>

datatype jsnum = NaN | NegInf | Fin real | PosInf

text \<open>A value as \<open>JSON.parse\<close> yields it; \<open>JUndefined\<close> is what reading an absent property gives.\<close>

datatype json =
    JUndefined
  | JNull
  | JBool bool
  | JNumber jsnum
  | JString string
  | JArray "json list"
  | JObject "(string \<times> json) list"

text \<open>
  Library routines of the runtime that the repository calls and does not define: the
  conversion of a string to a number, the conversion of an array to its primitive (a string,
  or a TypeError raised by an element), and base64 decoding. They are parameters.
\<close>

record js_runtime =
  StringToNumber :: "string \<Rightarrow> jsnum"
  ArrayToPrimitive :: "json list \<Rightarrow> error + string"
  base64_decode :: "string \<Rightarrow> string"

text \<open>Truthiness, as \<open>!x\<close>, \<open>x || d\<close> and \<open>if (x)\<close> test it.\<close>

fun truthy :: "json \<Rightarrow> bool" where
  "truthy JUndefined = False"
| "truthy JNull = False"
| "truthy (JBool b) = b"
| "truthy (JNumber NaN) = False"
| "truthy (JNumber (Fin x)) = (x \<noteq> 0)"
| "truthy (JNumber NegInf) = True"
| "truthy (JNumber PosInf) = True"
| "truthy (JString s) = (s \<noteq> [])"
| "truthy (JArray xs) = True"
| "truthy (JObject kvs) = True"

definition js_or :: "json \<Rightarrow> json \<Rightarrow> json" where
  "js_or x d = (if truthy x then x else d)"

text \<open>A nullable text column or an optional string property: absent and the empty string are falsy.\<close>

fun truthy_str :: "string option \<Rightarrow> bool" where
  "truthy_str None = False"
| "truthy_str (Some s) = (s \<noteq> [])"

fun or_str :: "string option \<Rightarrow> string \<Rightarrow> string" where
  "or_str None d = d"
| "or_str (Some s) d = (if s \<noteq> [] then s else d)"

text \<open>
  \<open>ToNumber\<close>, which \<open>Math.min\<close> and \<open>Math.max\<close> apply to their arguments. A parsed JSON
  object has no callable property of its own: with no own \<open>toString\<close> it converts through
  \<open>Object.prototype.toString\<close> to the text \<open>[object Object]\<close>, which is not numeric; with an
  own \<open>toString\<close> no conversion method is left and a TypeError is raised.
\<close>

fun ToNumber :: "js_runtime \<Rightarrow> json \<Rightarrow> error + jsnum" where
  "ToNumber rt JUndefined = Inr NaN"
| "ToNumber rt JNull = Inr (Fin 0)"
| "ToNumber rt (JBool b) = Inr (Fin (if b then 1 else 0))"
| "ToNumber rt (JNumber n) = Inr n"
| "ToNumber rt (JString s) = Inr (StringToNumber rt s)"
| "ToNumber rt (JArray xs) =
     (case ArrayToPrimitive rt xs of Inl e \<Rightarrow> Inl e | Inr s \<Rightarrow> Inr (StringToNumber rt s))"
| "ToNumber rt (JObject kvs) =
     (if ''toString'' \<in> set (map fst kvs) then Inl TypeError else Inr NaN)"

fun Math_min :: "jsnum \<Rightarrow> jsnum \<Rightarrow> jsnum" where
  "Math_min NaN y = NaN"
| "Math_min x NaN = NaN"
| "Math_min NegInf y = NegInf"
| "Math_min x NegInf = NegInf"
| "Math_min PosInf y = y"
| "Math_min x PosInf = x"
| "Math_min (Fin x) (Fin y) = Fin (min x y)"

fun Math_max :: "jsnum \<Rightarrow> jsnum \<Rightarrow> jsnum" where
  "Math_max NaN y = NaN"
| "Math_max x NaN = NaN"
| "Math_max PosInf y = PosInf"
| "Math_max x PosInf = PosInf"
| "Math_max NegInf y = y"
| "Math_max x NegInf = x"
| "Math_max (Fin x) (Fin y) = Fin (max x y)"

text \<open>\<open>String.prototype.startsWith\<close> at position 0.\<close>

definition startsWith :: "string \<Rightarrow> string \<Rightarrow> bool" where
  "startsWith s p = (take (length p) s = p)"

text \<open>Membership of the closed interval from 0 to 1; NaN and the infinities are outside.\<close>

fun in_unit_interval :: "jsnum \<Rightarrow> bool" where
  "in_unit_interval (Fin x) = (0 \<le> x \<and> x \<le> 1)"
| "in_unit_interval NaN = False"
| "in_unit_interval NegInf = False"
| "in_unit_interval PosInf = False"

section \<open>The stored data (shared/schema.ts)\<close>

text \<open>
  Rows carry the columns the code writes and reads. The columns the database fills by
  itself (\<open>id\<close>, \<open>created_at\<close>) are represented by the position of the row in its table: each
  table is the list of its rows in the order of insertion. The tables are part of the
  state. An insert can be rejected by the database and then raises, leaving the table as it
  was; the selects are taken to succeed.
\<close>

record credentials_row =
  c_userId :: string
  openaiApiKey :: "string option"
  gmailAccessToken :: "string option"
  gmailRefreshToken :: "string option"
  resumeLink :: "string option"
  personalDescription :: "string option"
  agentActive :: "bool option"

record log_row =
  l_userId :: string
  l_emailId :: string
  l_fromEmail :: string
  l_subject :: "string option"
  l_action :: string
  l_responseText :: "string option"
  l_status :: string

text \<open>
  The metadata of an activity as the code hands it to the insert; the column is JSON, which
  has no NaN and stores it as null.
\<close>

record activity_metadata =
  md_from :: string
  md_subject :: string
  md_action :: string
  md_confidence :: jsnum

record activity_row =
  a_userId :: string
  a_type :: string
  a_description :: string
  a_metadata :: "activity_metadata option"

section \<open>Messages of the mail provider\<close>

record header =
  h_name :: string
  h_value :: "string option"

record part =
  mimeType :: string
  part_body_data :: "string option"

record payload =
  p_headers :: "header list option"
  p_body_data :: "string option"
  p_parts :: "part list option"

record gmail_message =
  m_id :: string
  m_payload :: "payload option"

record email_content =
  c_from :: string
  c_subject :: string
  c_body :: string

section \<open>The outside world\<close>

text \<open>
  Every request the two service classes send to the mail provider or to the language model
  is recorded, in order, in the \<open>calls\<close> of the state. What the outside world answers is
  given by an \<open>env\<close>: each answer is a function of the requests made so far, the current
  one included, so that the same request may succeed once and fail later. The database
  answers an insert by accepting or rejecting the row, as a function of the state in which
  the insert is attempted and of the row.
\<close>

datatype call =
    GetEmails string string nat
  | SendEmail string string string string
  | StarEmail string string
  | AnalyzeEmail string string
  | GenerateReply string string string string

record raw_result =
  r_action :: "string option"
  r_confidence :: json
  r_reasoning :: "string option"

record state =
  userCredentials :: "credentials_row list"
  emailLogs :: "log_row list"
  activities :: "activity_row list"
  calls :: "call list"
  monitoringIntervals :: "(string \<times> nat) list"
  timers :: "(nat \<times> string) list"
  nextTimer :: nat

record env =
  list_messages :: "call list \<Rightarrow> error + gmail_message list"
  send_message :: "call list \<Rightarrow> error + unit"
  modify_message :: "call list \<Rightarrow> error + unit"
  classify :: "call list \<Rightarrow> error + raw_result"
  draft :: "call list \<Rightarrow> error + string option"
  log_insert :: "state \<Rightarrow> log_row \<Rightarrow> error + unit"
  activity_insert :: "state \<Rightarrow> activity_row \<Rightarrow> error + unit"

section \<open>storage.ts\<close>

definition getUserCredentials :: "state \<Rightarrow> string \<Rightarrow> credentials_row option" where
  "getUserCredentials s userId = find (\<lambda>c. c_userId c = userId) (userCredentials s)"

text \<open>
  \<open>insertEmailLog\<close> and \<open>insertActivity\<close>: the awaited insert either raises or stores the
  row. The row they return is not modelled: its only use is the \<open>logId\<close> handed to the
  handlers, which never read it.
\<close>

definition insertEmailLog :: "env \<Rightarrow> log_row \<Rightarrow> state \<Rightarrow> (error + unit) \<times> state" where
  "insertEmailLog ev row s =
     (case log_insert ev s row of
        Inl e \<Rightarrow> (Inl e, s)
      | Inr u \<Rightarrow> (Inr (), s\<lparr>emailLogs := emailLogs s @ [row]\<rparr>))"

text \<open>
  \<open>getUserEmailLogs(userId, limit = 50)\<close>: the rows of the user, newest first (\<open>ORDER BY
  created_at DESC\<close>), cut to \<open>limit\<close> rows.
\<close>

definition getUserEmailLogs :: "state \<Rightarrow> string \<Rightarrow> nat \<Rightarrow> log_row list" where
  "getUserEmailLogs s userId limit =
     take limit (rev (filter (\<lambda>l. l_userId l = userId) (emailLogs s)))"

definition insertActivity :: "env \<Rightarrow> activity_row \<Rightarrow> state \<Rightarrow> (error + unit) \<times> state" where
  "insertActivity ev a s =
     (case activity_insert ev s a of
        Inl e \<Rightarrow> (Inl e, s)
      | Inr u \<Rightarrow> (Inr (), s\<lparr>activities := activities s @ [a]\<rparr>))"

section \<open>services/gmailService.ts\<close>

definition getAuthenticatedClient :: "state \<Rightarrow> string \<Rightarrow> error + unit" where
  "getAuthenticatedClient s userId =
     (case getUserCredentials s userId of
        None \<Rightarrow> Inl (Error ''Gmail not connected'')
      | Some c \<Rightarrow>
          if \<not> truthy_str (gmailAccessToken c) then Inl (Error ''Gmail not connected'')
          else Inr ())"

text \<open>
  The three methods that talk to the provider first obtain the authenticated client, which
  raises when no access token is stored; only then is the request sent.
\<close>

definition getEmails :: "env \<Rightarrow> string \<Rightarrow> string \<Rightarrow> nat \<Rightarrow> state
    \<Rightarrow> (error + gmail_message list) \<times> state" where
  "getEmails ev userId query maxResults s =
     (case getAuthenticatedClient s userId of
        Inl e \<Rightarrow> (Inl e, s)
      | Inr u \<Rightarrow>
          (let s1 = s\<lparr>calls := calls s @ [GetEmails userId query maxResults]\<rparr>
           in (list_messages ev (calls s1), s1)))"

definition sendEmail :: "env \<Rightarrow> string \<Rightarrow> string \<Rightarrow> string \<Rightarrow> string \<Rightarrow> state
    \<Rightarrow> (error + unit) \<times> state" where
  "sendEmail ev userId to subject body s =
     (case getAuthenticatedClient s userId of
        Inl e \<Rightarrow> (Inl e, s)
      | Inr u \<Rightarrow>
          (let s1 = s\<lparr>calls := calls s @ [SendEmail userId to subject body]\<rparr>
           in (send_message ev (calls s1), s1)))"

definition starEmail :: "env \<Rightarrow> string \<Rightarrow> string \<Rightarrow> state \<Rightarrow> (error + unit) \<times> state" where
  "starEmail ev userId messageId s =
     (case getAuthenticatedClient s userId of
        Inl e \<Rightarrow> (Inl e, s)
      | Inr u \<Rightarrow>
          (let s1 = s\<lparr>calls := calls s @ [StarEmail userId messageId]\<rparr>
           in (modify_message ev (calls s1), s1)))"

definition header_value :: "string \<Rightarrow> header list \<Rightarrow> string" where
  "header_value name headers =
     (case find (\<lambda>h. h_name h = name) headers of
        None \<Rightarrow> []
      | Some h \<Rightarrow> or_str (h_value h) [])"

definition plain_part_body :: "js_runtime \<Rightarrow> part list \<Rightarrow> string" where
  "plain_part_body rt parts =
     (case find (\<lambda>p. mimeType p = ''text/plain'' \<and> truthy_str (part_body_data p)) parts of
        None \<Rightarrow> []
      | Some p \<Rightarrow> base64_decode rt (the (part_body_data p)))"

text \<open>
  \<open>getEmailContent\<close> computes on the message it is given and asks the provider nothing.
  Reading \<open>email.payload.headers\<close> of a message without payload, or calling \<open>find\<close> on
  absent headers, raises a TypeError.
\<close>

definition getEmailContent :: "js_runtime \<Rightarrow> gmail_message \<Rightarrow> error + email_content" where
  "getEmailContent rt email =
     (case m_payload email of
        None \<Rightarrow> Inl TypeError
      | Some p \<Rightarrow>
         (case p_headers p of
            None \<Rightarrow> Inl TypeError
          | Some headers \<Rightarrow>
              Inr \<lparr>c_from = header_value ''From'' headers,
                   c_subject = header_value ''Subject'' headers,
                   c_body =
                     (if truthy_str (p_body_data p) then base64_decode rt (the (p_body_data p))
                      else case p_parts p of
                             None \<Rightarrow> []
                           | Some parts \<Rightarrow> plain_part_body rt parts)\<rparr>))"

section \<open>services/openaiService.ts\<close>

record analysis =
  action :: string
  confidence :: jsnum
  reasoning :: string

text \<open>
  \<open>analyzeEmail\<close>. The credentials check is outside the \<open>try\<close> and raises; everything from
  the request to the \<open>return\<close> is inside it, so a failed request, a reply that does not
  parse and a TypeError of the conversion all end in the fallback result of the \<open>catch\<close>.
  \<open>classify\<close> answers with what \<open>JSON.parse\<close> made of the reply: the action and the
  reasoning as optional strings, the confidence as any JSON value.
\<close>

definition analyzeEmail :: "env \<Rightarrow> js_runtime \<Rightarrow> string \<Rightarrow> string \<Rightarrow> state
    \<Rightarrow> (error + analysis) \<times> state" where
  "analyzeEmail ev rt userId emailContent s =
     (case getUserCredentials s userId of
        None \<Rightarrow> (Inl (Error ''OpenAI API key not configured''), s)
      | Some c \<Rightarrow>
          if \<not> truthy_str (openaiApiKey c)
          then (Inl (Error ''OpenAI API key not configured''), s)
          else
            (let s1 = s\<lparr>calls := calls s @ [AnalyzeEmail (the (openaiApiKey c)) emailContent]\<rparr>;
                 failed = \<lparr>action = ''ignore'', confidence = Fin 0,
                           reasoning = ''Error analyzing email''\<rparr>
             in (case classify ev (calls s1) of
                   Inl e \<Rightarrow> (Inr failed, s1)
                 | Inr result \<Rightarrow>
                    (case ToNumber rt (js_or (r_confidence result) (JNumber (Fin 0))) of
                       Inl e \<Rightarrow> (Inr failed, s1)
                     | Inr n \<Rightarrow>
                         (Inr \<lparr>action = or_str (r_action result) ''ignore'',
                               confidence = Math_max (Fin 0) (Math_min (Fin 1) n),
                               reasoning = or_str (r_reasoning result) ''No reasoning provided''\<rparr>,
                          s1)))))"

definition default_reply :: string where
  "default_reply = ''Thank you for your interest. Please find my resume attached.''"

text \<open>
  \<open>generateReply\<close>. As above the credentials check raises; a failed request and an empty
  reply both give the default text. The request carries the user's description and resume
  link, defaulted when absent.
\<close>

definition generateReply :: "env \<Rightarrow> string \<Rightarrow> string \<Rightarrow> string \<Rightarrow> state
    \<Rightarrow> (error + string) \<times> state" where
  "generateReply ev userId emailContent fromEmail s =
     (case getUserCredentials s userId of
        None \<Rightarrow> (Inl (Error ''OpenAI API key not configured''), s)
      | Some c \<Rightarrow>
          if \<not> truthy_str (openaiApiKey c)
          then (Inl (Error ''OpenAI API key not configured''), s)
          else
            (let s1 = s\<lparr>calls := calls s @
                        [GenerateReply (the (openaiApiKey c))
                           (or_str (personalDescription c) ''a job seeker'')
                           (or_str (resumeLink c) [])
                           emailContent]\<rparr>
             in (case draft ev (calls s1) of
                   Inl e \<Rightarrow> (Inr default_reply, s1)
                 | Inr content \<Rightarrow> (Inr (or_str content default_reply), s1))))"

section \<open>services/emailProcessor.ts\<close>

subsection \<open>The scheduler\<close>

text \<open>
  \<open>monitoringIntervals\<close> is the \<open>Map\<close> from user to timer handle. \<open>timers\<close> are the interval
  timers of the runtime that are armed, each with the user whose mailbox its callback polls;
  \<open>setInterval\<close> arms a timer under a fresh handle and \<open>clearInterval\<close> disarms one.
\<close>

definition setInterval :: "string \<Rightarrow> state \<Rightarrow> nat \<times> state" where
  "setInterval userId s =
     (nextTimer s, s\<lparr>timers := timers s @ [(nextTimer s, userId)], nextTimer := Suc (nextTimer s)\<rparr>)"

definition clearInterval :: "nat \<Rightarrow> state \<Rightarrow> state" where
  "clearInterval h s = s\<lparr>timers := filter (\<lambda>t. fst t \<noteq> h) (timers s)\<rparr>"

definition stopMonitoring :: "string \<Rightarrow> state \<Rightarrow> state" where
  "stopMonitoring userId s =
     (case map_of (monitoringIntervals s) userId of
        None \<Rightarrow> s
      | Some interval \<Rightarrow>
          (let s1 = clearInterval interval s
           in s1\<lparr>monitoringIntervals := AList.delete userId (monitoringIntervals s1)\<rparr>))"

text \<open>The timers armed for a user.\<close>

definition active_tasks :: "state \<Rightarrow> string \<Rightarrow> nat list" where
  "active_tasks s userId = map fst (filter (\<lambda>t. snd t = userId) (timers s))"

subsection \<open>The handlers\<close>

definition replySubject :: "string \<Rightarrow> string" where
  "replySubject subject = (if startsWith subject ''Re:'' then subject else ''Re: '' @ subject)"

definition reply_failed_row :: "string \<Rightarrow> gmail_message \<Rightarrow> string \<Rightarrow> log_row" where
  "reply_failed_row userId email fromEmail =
     \<lparr>l_userId = userId, l_emailId = m_id email, l_fromEmail = fromEmail,
      l_subject = Some ''Reply failed'', l_action = ''reply'', l_responseText = None,
      l_status = ''failed''\<rparr>"

definition reply_sent_row :: "string \<Rightarrow> gmail_message \<Rightarrow> string \<Rightarrow> string \<Rightarrow> string \<Rightarrow> log_row" where
  "reply_sent_row userId email fromEmail subject replyText =
     \<lparr>l_userId = userId, l_emailId = m_id email, l_fromEmail = fromEmail,
      l_subject = Some subject, l_action = ''reply'', l_responseText = Some replyText,
      l_status = ''sent''\<rparr>"

text \<open>
  The \<open>try\<close> of \<open>handleReplyAction\<close>: the text is generated, the subject computed, the
  reply sent and the \<open>sent\<close> row written; each step can raise. The parameter \<open>logId\<close> of
  the two handlers is never read and is left out.
\<close>

definition handleReplyAction_try :: "env \<Rightarrow> js_runtime \<Rightarrow> string \<Rightarrow> gmail_message \<Rightarrow> string
    \<Rightarrow> string \<Rightarrow> state \<Rightarrow> (error + unit) \<times> state" where
  "handleReplyAction_try ev rt userId email fromEmail body s =
     (case generateReply ev userId body fromEmail s of
        (Inl e, s1) \<Rightarrow> (Inl e, s1)
      | (Inr replyText, s1) \<Rightarrow>
         (case getEmailContent rt email of
            Inl e \<Rightarrow> (Inl e, s1)
          | Inr content \<Rightarrow>
             (case sendEmail ev userId fromEmail (replySubject (c_subject content)) replyText s1 of
                (Inl e, s2) \<Rightarrow> (Inl e, s2)
              | (Inr u, s2) \<Rightarrow>
                  insertEmailLog ev
                    (reply_sent_row userId email fromEmail (replySubject (c_subject content))
                       replyText) s2)))"

text \<open>
  \<open>handleReplyAction\<close>: whatever the \<open>try\<close> raised, the \<open>catch\<close> writes the \<open>failed\<close> row;
  if that write raises, the handler raises.
\<close>

definition handleReplyAction :: "env \<Rightarrow> js_runtime \<Rightarrow> string \<Rightarrow> gmail_message \<Rightarrow> string \<Rightarrow> string
    \<Rightarrow> state \<Rightarrow> (error + unit) \<times> state" where
  "handleReplyAction ev rt userId email fromEmail body s =
     (case handleReplyAction_try ev rt userId email fromEmail body s of
        (Inl e, s1) \<Rightarrow> insertEmailLog ev (reply_failed_row userId email fromEmail) s1
      | (Inr u, s1) \<Rightarrow> (Inr (), s1))"

definition star_row :: "string \<Rightarrow> gmail_message \<Rightarrow> string \<Rightarrow> string \<Rightarrow> log_row" where
  "star_row userId email subject status =
     \<lparr>l_userId = userId, l_emailId = m_id email, l_fromEmail = [],
      l_subject = Some subject, l_action = ''star'', l_responseText = None,
      l_status = status\<rparr>"

definition handleStarAction_try :: "env \<Rightarrow> string \<Rightarrow> gmail_message \<Rightarrow> state
    \<Rightarrow> (error + unit) \<times> state" where
  "handleStarAction_try ev userId email s =
     (case starEmail ev userId (m_id email) s of
        (Inl e, s1) \<Rightarrow> (Inl e, s1)
      | (Inr u, s1) \<Rightarrow> insertEmailLog ev (star_row userId email ''Email starred'' ''sent'') s1)"

definition handleStarAction :: "env \<Rightarrow> string \<Rightarrow> gmail_message \<Rightarrow> state \<Rightarrow> (error + unit) \<times> state" where
  "handleStarAction ev userId email s =
     (case handleStarAction_try ev userId email s of
        (Inl e, s1) \<Rightarrow> insertEmailLog ev (star_row userId email ''Star failed'' ''failed'') s1
      | (Inr u, s1) \<Rightarrow> (Inr (), s1))"

subsection \<open>The pipeline\<close>

definition pending_row :: "string \<Rightarrow> gmail_message \<Rightarrow> email_content \<Rightarrow> analysis \<Rightarrow> log_row" where
  "pending_row userId email content a =
     \<lparr>l_userId = userId, l_emailId = m_id email, l_fromEmail = c_from content,
      l_subject = Some (c_subject content), l_action = action a, l_responseText = None,
      l_status = ''pending''\<rparr>"

definition activity_for :: "string \<Rightarrow> email_content \<Rightarrow> analysis \<Rightarrow> activity_row" where
  "activity_for userId content a =
     \<lparr>a_userId = userId,
      a_type = ''email_'' @ action a,
      a_description =
        ''Email '' @
        (if action a = ''reply'' then ''replied to''
         else if action a = ''star'' then ''starred'' else ''processed'') @
        '': '' @ c_subject content,
      a_metadata = Some \<lparr>md_from = c_from content, md_subject = c_subject content,
                         md_action = action a, md_confidence = confidence a\<rparr>\<rparr>"

definition alreadyProcessed :: "state \<Rightarrow> string \<Rightarrow> gmail_message \<Rightarrow> bool" where
  "alreadyProcessed s userId email =
     list_ex (\<lambda>l. l_emailId l = m_id email) (getUserEmailLogs s userId 50)"

text \<open>The \<open>switch\<close> on the action; an action that is none of the three cases falls through.\<close>

definition dispatch :: "env \<Rightarrow> js_runtime \<Rightarrow> string \<Rightarrow> gmail_message \<Rightarrow> email_content \<Rightarrow> analysis
    \<Rightarrow> state \<Rightarrow> (error + unit) \<times> state" where
  "dispatch ev rt userId email content a s =
     (if action a = ''reply''
      then handleReplyAction ev rt userId email (c_from content) (c_body content) s
      else if action a = ''star'' then handleStarAction ev userId email s
      else (Inr (), s))"

text \<open>The body of the \<open>try\<close> of \<open>processEmail\<close>: what it raises, if anything, and the state it leaves.\<close>

definition processEmail_try :: "env \<Rightarrow> js_runtime \<Rightarrow> string \<Rightarrow> gmail_message \<Rightarrow> state
    \<Rightarrow> (error + unit) \<times> state" where
  "processEmail_try ev rt userId email s =
     (if alreadyProcessed s userId email then (Inr (), s)
      else case getEmailContent rt email of
             Inl e \<Rightarrow> (Inl e, s)
           | Inr content \<Rightarrow>
              (case analyzeEmail ev rt userId (c_body content) s of
                 (Inl e, s1) \<Rightarrow> (Inl e, s1)
               | (Inr a, s1) \<Rightarrow>
                  (case insertEmailLog ev (pending_row userId email content a) s1 of
                     (Inl e, s2) \<Rightarrow> (Inl e, s2)
                   | (Inr u, s2) \<Rightarrow>
                      (case dispatch ev rt userId email content a s2 of
                         (Inl e, s3) \<Rightarrow> (Inl e, s3)
                       | (Inr u, s3) \<Rightarrow>
                           insertActivity ev (activity_for userId content a) s3))))"

text \<open>\<open>processEmail\<close>: the \<open>catch\<close> reports the error on the console and returns.\<close>

definition processEmail :: "env \<Rightarrow> js_runtime \<Rightarrow> string \<Rightarrow> gmail_message \<Rightarrow> state
    \<Rightarrow> (error + unit) \<times> state" where
  "processEmail ev rt userId email s =
     (case processEmail_try ev rt userId email s of
        (Inl e, s1) \<Rightarrow> (Inr (), s1)
      | (Inr u, s1) \<Rightarrow> (Inr (), s1))"

text \<open>The \<open>for\<close> loop of \<open>processNewEmails\<close>: a call that raises ends the loop.\<close>

fun process_each :: "env \<Rightarrow> js_runtime \<Rightarrow> string \<Rightarrow> gmail_message list \<Rightarrow> state
    \<Rightarrow> (error + unit) \<times> state" where
  "process_each ev rt userId [] s = (Inr (), s)"
| "process_each ev rt userId (email # emails) s =
     (case processEmail ev rt userId email s of
        (Inl e, s1) \<Rightarrow> (Inl e, s1)
      | (Inr u, s1) \<Rightarrow> process_each ev rt userId emails s1)"

definition agent_is_active :: "credentials_row option \<Rightarrow> bool" where
  "agent_is_active credentials =
     (case credentials of None \<Rightarrow> False | Some c \<Rightarrow> agentActive c = Some True)"

definition processNewEmails_try :: "env \<Rightarrow> js_runtime \<Rightarrow> string \<Rightarrow> state
    \<Rightarrow> (error + unit) \<times> state" where
  "processNewEmails_try ev rt userId s =
     (if \<not> agent_is_active (getUserCredentials s userId) then (Inr (), s)
      else case getEmails ev userId ''is:unread newer_than:1d'' 10 s of
             (Inl e, s1) \<Rightarrow> (Inl e, s1)
           | (Inr emails, s1) \<Rightarrow> process_each ev rt userId emails s1)"

definition processNewEmails :: "env \<Rightarrow> js_runtime \<Rightarrow> string \<Rightarrow> state \<Rightarrow> state" where
  "processNewEmails ev rt userId s = snd (processNewEmails_try ev rt userId s)"

definition startMonitoring :: "env \<Rightarrow> js_runtime \<Rightarrow> string \<Rightarrow> state \<Rightarrow> state" where
  "startMonitoring ev rt userId s =
     (let s1 = stopMonitoring userId s;
          (interval, s2) = setInterval userId s1;
          s3 = s2\<lparr>monitoringIntervals := AList.update userId interval (monitoringIntervals s2)\<rparr>
      in processNewEmails ev rt userId s3)"

section \<open>Notions used by the statements\<close>

text \<open>The stored tables and the scheduler are the same in two states; only \<open>calls\<close> may differ.\<close>

definition same_store :: "state \<Rightarrow> state \<Rightarrow> bool" where
  "same_store s s' \<longleftrightarrow>
     userCredentials s' = userCredentials s \<and> emailLogs s' = emailLogs s \<and>
     activities s' = activities s \<and> monitoringIntervals s' = monitoringIntervals s \<and>
     timers s' = timers s \<and> nextTimer s' = nextTimer s"

text \<open>
  The scheduler's invariant: handles are not reused, and every armed timer is the one
  registered for its user.
\<close>

definition sched_inv :: "state \<Rightarrow> bool" where
  "sched_inv s \<longleftrightarrow>
     distinct (map fst (timers s)) \<and>
     list_all (\<lambda>t. map_of (monitoringIntervals s) (snd t) = Some (fst t) \<and> fst t < nextTimer s)
       (timers s)"

text \<open>
  Something is raised inside the \<open>try\<close> of \<open>handleReplyAction\<close> before the \<open>sent\<close> row is
  written: by \<open>generateReply\<close>, by \<open>getEmailContent\<close> or by \<open>sendEmail\<close>.
\<close>

definition reply_raises :: "env \<Rightarrow> js_runtime \<Rightarrow> string \<Rightarrow> gmail_message \<Rightarrow> string \<Rightarrow> string
    \<Rightarrow> state \<Rightarrow> bool" where
  "reply_raises ev rt userId email fromEmail body s =
     (case generateReply ev userId body fromEmail s of
        (Inl e, s1) \<Rightarrow> True
      | (Inr replyText, s1) \<Rightarrow>
         (case getEmailContent rt email of
            Inl e \<Rightarrow> True
          | Inr content \<Rightarrow>
              isl (fst (sendEmail ev userId fromEmail (replySubject (c_subject content))
                          replyText s1))))"

text \<open>What a handler leaves: one more log row, and nothing else of the store changed.\<close>

definition one_more_row :: "state \<Rightarrow> log_row \<Rightarrow> state \<Rightarrow> bool" where
  "one_more_row s t s' \<longleftrightarrow>
     emailLogs s' = emailLogs s @ [t] \<and> same_store (s\<lparr>emailLogs := emailLogs s @ [t]\<rparr>) s'"

text \<open>A database that accepts every insert.\<close>

definition sink_accepts :: "env \<Rightarrow> bool" where
  "sink_accepts ev \<longleftrightarrow>
     (\<forall>s row. log_insert ev s row = Inr ()) \<and> (\<forall>s a. activity_insert ev s a = Inr ())"

text \<open>The scheduler is the same in two states.\<close>

definition same_sched :: "state \<Rightarrow> state \<Rightarrow> bool" where
  "same_sched s s' \<longleftrightarrow>
     monitoringIntervals s' = monitoringIntervals s \<and> timers s' = timers s \<and>
     nextTimer s' = nextTimer s"

text \<open>
  The part of \<open>startMonitoring\<close> between the call of \<open>stopMonitoring\<close> and the first run of
  the pipeline: the timer is armed, then registered.
\<close>

definition arm_and_register :: "string \<Rightarrow> state \<Rightarrow> state" where
  "arm_and_register userId s1 =
     (let (interval, s2) = setInterval userId s1
      in s2\<lparr>monitoringIntervals := AList.update userId interval (monitoringIntervals s2)\<rparr>)"

section \<open>Example inputs\<close>

text \<open>A runtime for the examples; none of them converts a string or an array to a number.\<close>

definition example_rt :: js_runtime where
  "example_rt = \<lparr>StringToNumber = (\<lambda>s. if s = [] then Fin 0 else NaN),
                  ArrayToPrimitive = (\<lambda>xs. Inr []),
                  base64_decode = (\<lambda>s. s)\<rparr>"

definition example_message :: gmail_message where
  "example_message =
     \<lparr>m_id = ''m1'',
      m_payload = Some
        \<lparr>p_headers = Some [\<lparr>h_name = ''From'', h_value = Some ''hr@corp.example''\<rparr>,
                           \<lparr>h_name = ''Subject'', h_value = Some ''Your application''\<rparr>],
         p_body_data = Some ''please send your resume'',
         p_parts = None\<rparr>\<rparr>"

definition second_message :: gmail_message where
  "second_message =
     \<lparr>m_id = ''m2'',
      m_payload = Some
        \<lparr>p_headers = Some [\<lparr>h_name = ''From'', h_value = Some ''jobs@firm.example''\<rparr>,
                           \<lparr>h_name = ''Subject'', h_value = Some ''Re: opening''\<rparr>],
         p_body_data = None,
         p_parts = Some [\<lparr>mimeType = ''text/plain'', part_body_data = Some ''send a CV''\<rparr>]\<rparr>\<rparr>"

text \<open>A message without payload: \<open>getEmailContent\<close> raises on it.\<close>

definition broken_message :: gmail_message where
  "broken_message = \<lparr>m_id = ''m0'', m_payload = None\<rparr>"

definition example_credentials :: credentials_row where
  "example_credentials =
     \<lparr>c_userId = ''u1'', openaiApiKey = Some ''sk-key'', gmailAccessToken = Some ''token'',
      gmailRefreshToken = None, resumeLink = None, personalDescription = None,
      agentActive = Some True\<rparr>"

definition example_state :: state where
  "example_state =
     \<lparr>userCredentials = [example_credentials], emailLogs = [], activities = [], calls = [],
      monitoringIntervals = [], timers = [], nextTimer = 0\<rparr>"

text \<open>The same user with the agent switched off.\<close>

definition inactive_state :: state where
  "inactive_state =
     example_state\<lparr>userCredentials := [example_credentials\<lparr>agentActive := Some False\<rparr>]\<rparr>"

text \<open>A state in which a task is registered for the user, and its timer armed.\<close>

definition running_state :: state where
  "running_state =
     example_state\<lparr>monitoringIntervals := [(''u1'', 0)], timers := [(0, ''u1'')], nextTimer := 1\<rparr>"

text \<open>
  An outside world in which every request succeeds, every insert is accepted and every
  message calls for a reply.
\<close>

definition env_reply :: env where
  "env_reply =
     \<lparr>list_messages = (\<lambda>cs. Inr [example_message]),
      send_message = (\<lambda>cs. Inr ()),
      modify_message = (\<lambda>cs. Inr ()),
      classify = (\<lambda>cs. Inr \<lparr>r_action = Some ''reply'', r_confidence = JNumber (Fin (9 / 10)),
                              r_reasoning = Some ''asks for a resume''\<rparr>),
      draft = (\<lambda>cs. Inr (Some ''Here is my resume.'')),
      log_insert = (\<lambda>s row. Inr ()),
      activity_insert = (\<lambda>s a. Inr ())\<rparr>"

text \<open>The same, with the send request failing.\<close>

definition env_send_fails :: env where
  "env_send_fails = env_reply\<lparr>send_message := (\<lambda>cs. Inl ApiFailure)\<rparr>"

text \<open>The same, with the request for the reply text failing.\<close>

definition env_draft_fails :: env where
  "env_draft_fails = env_reply\<lparr>draft := (\<lambda>cs. Inl ApiFailure)\<rparr>"

text \<open>The same, with the classification request failing.\<close>

definition env_classify_fails :: env where
  "env_classify_fails = env_reply\<lparr>classify := (\<lambda>cs. Inl ApiFailure)\<rparr>"

text \<open>The same, with a batch of two messages of which the first is broken.\<close>

definition env_batch :: env where
  "env_batch = env_reply\<lparr>list_messages := (\<lambda>cs. Inr [broken_message, second_message])\<rparr>"

text \<open>What \<open>getEmailContent\<close> extracts from the example message, and how it is classified.\<close>

definition example_content :: email_content where
  "example_content =
     \<lparr>c_from = ''hr@corp.example'', c_subject = ''Your application'',
      c_body = ''please send your resume''\<rparr>"

definition example_analysis :: "string \<Rightarrow> analysis" where
  "example_analysis act =
     \<lparr>action = act, confidence = Fin (9 / 10), reasoning = ''asks for a resume''\<rparr>"

definition analysed_state :: state where
  "analysed_state =
     example_state\<lparr>calls := [AnalyzeEmail ''sk-key'' ''please send your resume'']\<rparr>"

text \<open>An outside world in which every message is to be starred.\<close>

definition env_star :: env where
  "env_star =
     env_reply\<lparr>classify := (\<lambda>cs. Inr \<lparr>r_action = Some ''star'',
                   r_confidence = JNumber (Fin (9 / 10)),
                   r_reasoning = Some ''asks for a resume''\<rparr>)\<rparr>"

text \<open>
  The same as \<open>env_reply\<close>, with a database that is lost once the first log row is stored:
  it accepts an insert into the empty log table and rejects every other insert.
\<close>

definition env_sink_lost :: env where
  "env_sink_lost =
     env_reply\<lparr>log_insert := (\<lambda>s row. if emailLogs s = [] then Inr () else Inl ApiFailure),
               activity_insert := (\<lambda>s a. Inl ApiFailure)\<rparr>"

text \<open>The example state without any credentials: no classifier key, no mail token.\<close>

definition keyless_state :: state where
  "keyless_state = example_state\<lparr>userCredentials := []\<rparr>"

text \<open>An outside world whose classifier puts an object where the confidence is expected.\<close>

definition env_odd_confidence :: env where
  "env_odd_confidence =
     env_reply\<lparr>classify := (\<lambda>cs. Inr \<lparr>r_action = Some ''reply'',
                   r_confidence = JObject [(''value'', JNumber (Fin (9 / 10)))],
                   r_reasoning = Some ''asks for a resume''\<rparr>)\<rparr>"

text \<open>The result of the \<open>catch\<close> of \<open>analyzeEmail\<close>.\<close>

definition failed_analysis :: analysis where
  "failed_analysis =
     \<lparr>action = ''ignore'', confidence = Fin 0, reasoning = ''Error analyzing email''\<rparr>"

text \<open>The example state after a run on the example message in which the classification request failed.\<close>

definition failed_classification_state :: state where
  "failed_classification_state =
     analysed_state
       \<lparr>emailLogs := [pending_row ''u1'' example_message example_content failed_analysis],
        activities := [activity_for ''u1'' example_content failed_analysis]\<rparr>"

text \<open>The rows of fifty messages processed later for the same user.\<close>

definition later_rows :: "log_row list" where
  "later_rows =
     map (\<lambda>n. \<lparr>l_userId = ''u1'', l_emailId = replicate n (CHR ''x''),
                l_fromEmail = ''news@shop.example'', l_subject = Some ''Offer'',
                l_action = ''ignore'', l_responseText = None, l_status = ''pending''\<rparr>)
       [1..<51]"

text \<open>The log of the user after those: the row of the example message is the oldest of 51.\<close>

definition full_log_state :: state where
  "full_log_state =
     failed_classification_state
       \<lparr>emailLogs := emailLogs failed_classification_state @ later_rows\<rparr>"


section \<open>Claims\<close>

subsection \<open>Reply subject\<close>

lemma startsWith_prefix: "startsWith s p = prefix p s"
  unfolding startsWith_def prefix_def
  by (metis append_eq_conv_conj append_take_drop_id)

text \<open>
  C8, as stated: the reply subject is the subject itself when it begins with the four
  characters \<open>Re: \<close> (with the space) and \<open>Re: \<close> put before it otherwise. The code tests the
  three characters \<open>Re:\<close>, so the subject \<open>Re:hello\<close> is kept as it is, where the claim
  expects \<open>Re: Re:hello\<close>.
\<close>

theorem replySubject_four_chars_counterexample:
  "\<not> (replySubject ''Re:hello'' =
        (if prefix ''Re: '' ''Re:hello'' then ''Re:hello'' else ''Re: '' @ ''Re:hello''))"
  by (simp add: replySubject_def startsWith_def)

text \<open>
  C8, amended: for every subject \<open>s\<close>, the reply subject is \<open>s\<close> when \<open>s\<close> begins with the
  case-sensitive prefix \<open>Re:\<close> (three characters, no space needed), and \<open>Re: \<close> followed by
  \<open>s\<close> otherwise.
\<close>

theorem replySubject_three_chars:
  "replySubject s = (if prefix ''Re:'' s then s else ''Re: '' @ s)"
  by (simp add: replySubject_def startsWith_prefix)

theorem replySubject_three_chars_witness:
  "replySubject ''Re: opening'' = ''Re: opening'' \<and>
   replySubject ''re: opening'' = ''Re: re: opening'' \<and>
   replySubject ''Your application'' = ''Re: Your application''"
  using replySubject_three_chars [of "''Re: opening''"]
        replySubject_three_chars [of "''re: opening''"]
        replySubject_three_chars [of "''Your application''"]
  by simp

subsection \<open>Inactive agent\<close>

text \<open>
  C2: when the user has no credentials record, or the record's \<open>agentActive\<close> flag is not
  true (false, or never set), \<open>processNewEmails\<close> leaves the whole state as it was: no
  request to the mail provider or the classifier is made, and no log or activity row is
  written.
\<close>

theorem processNewEmails_inactive_noop:
  assumes "getUserCredentials s userId = None \<or>
           (\<exists>c. getUserCredentials s userId = Some c \<and> agentActive c \<noteq> Some True)"
  shows "processNewEmails ev rt userId s = s \<and>
         calls (processNewEmails ev rt userId s) = calls s \<and>
         emailLogs (processNewEmails ev rt userId s) = emailLogs s \<and>
         activities (processNewEmails ev rt userId s) = activities s"
  using assms by (auto simp: processNewEmails_def processNewEmails_try_def agent_is_active_def)

theorem processNewEmails_inactive_noop_witness:
  "processNewEmails env_reply example_rt ''u1'' inactive_state = inactive_state \<and>
   processNewEmails env_reply example_rt ''nobody'' inactive_state = inactive_state"
proof -
  have a: "\<exists>c. getUserCredentials inactive_state ''u1'' = Some c \<and> agentActive c \<noteq> Some True"
    by (simp add: getUserCredentials_def inactive_state_def example_state_def
        example_credentials_def)
  have b: "getUserCredentials inactive_state ''nobody'' = None"
    by (simp add: getUserCredentials_def inactive_state_def example_state_def
        example_credentials_def)
  from a b show ?thesis
    using processNewEmails_inactive_noop [of inactive_state "''u1''" env_reply example_rt]
          processNewEmails_inactive_noop [of inactive_state "''nobody''" env_reply example_rt]
    by blast
qed

subsection \<open>Failure isolation\<close>

lemma processEmail_returns: "fst (processEmail ev rt userId email s) = Inr ()"
  by (simp add: processEmail_def split: prod.split sum.split)


subsection \<open>Stopping\<close>

lemma stop_none: "map_of (monitoringIntervals s) u = None \<Longrightarrow> stopMonitoring u s = s"
  by (simp add: stopMonitoring_def)

lemma stop_some:
  "map_of (monitoringIntervals s) u = Some h \<Longrightarrow>
   stopMonitoring u s =
     s\<lparr>timers := filter (\<lambda>t. fst t \<noteq> h) (timers s),
       monitoringIntervals := AList.delete u (monitoringIntervals s)\<rparr>"
  by (simp add: stopMonitoring_def clearInterval_def)

lemma stop_unregisters: "map_of (monitoringIntervals (stopMonitoring u s)) u = None"
  by (cases "map_of (monitoringIntervals s) u")
     (simp_all add: stopMonitoring_def clearInterval_def delete_conv')

text \<open>
  C9: \<open>stopMonitoring\<close> for a user without a registered task returns the state unchanged
  (it cannot raise); for a user with a registered task it disarms that task's timer and
  removes the registration, and a second call then changes nothing.
\<close>

theorem stopMonitoring_noop_or_cancel:
  "(map_of (monitoringIntervals s) u = None \<longrightarrow> stopMonitoring u s = s) \<and>
   (\<forall>h. map_of (monitoringIntervals s) u = Some h \<longrightarrow>
        stopMonitoring u s =
          s\<lparr>timers := filter (\<lambda>t. fst t \<noteq> h) (timers s),
            monitoringIntervals := AList.delete u (monitoringIntervals s)\<rparr> \<and>
        h \<notin> fst ` set (timers (stopMonitoring u s)) \<and>
        map_of (monitoringIntervals (stopMonitoring u s)) u = None) \<and>
   stopMonitoring u (stopMonitoring u s) = stopMonitoring u s"
proof (intro conjI allI impI)
  show "stopMonitoring u s = s" if "map_of (monitoringIntervals s) u = None"
    using that by (rule stop_none)
  show "stopMonitoring u (stopMonitoring u s) = stopMonitoring u s"
    by (rule stop_none) (rule stop_unregisters)
next
  fix h assume h: "map_of (monitoringIntervals s) u = Some h"
  show "stopMonitoring u s =
          s\<lparr>timers := filter (\<lambda>t. fst t \<noteq> h) (timers s),
            monitoringIntervals := AList.delete u (monitoringIntervals s)\<rparr>"
    using h by (rule stop_some)
  show "h \<notin> fst ` set (timers (stopMonitoring u s))"
    by (auto simp: stop_some [OF h])
  show "map_of (monitoringIntervals (stopMonitoring u s)) u = None"
    by (rule stop_unregisters)
qed

theorem stopMonitoring_noop_or_cancel_witness:
  "stopMonitoring ''u1'' example_state = example_state \<and>
   stopMonitoring ''u1'' running_state =
     running_state\<lparr>timers := [], monitoringIntervals := []\<rparr> \<and>
   stopMonitoring ''u1'' (stopMonitoring ''u1'' running_state) =
     stopMonitoring ''u1'' running_state"
proof -
  have a: "map_of (monitoringIntervals example_state) ''u1'' = None"
    by (simp add: example_state_def)
  have b: "map_of (monitoringIntervals running_state) ''u1'' = Some 0"
    by (simp add: running_state_def example_state_def)
  have c: "running_state\<lparr>timers := filter (\<lambda>t. fst t \<noteq> 0) (timers running_state),
             monitoringIntervals := AList.delete ''u1'' (monitoringIntervals running_state)\<rparr> =
           running_state\<lparr>timers := [], monitoringIntervals := []\<rparr>"
    by (simp add: running_state_def example_state_def)
  note idle = stopMonitoring_noop_or_cancel [of example_state "''u1''"]
  note busy = stopMonitoring_noop_or_cancel [of running_state "''u1''"]
  from idle a have 1: "stopMonitoring ''u1'' example_state = example_state"
    by blast
  from busy b have "stopMonitoring ''u1'' running_state =
      running_state\<lparr>timers := filter (\<lambda>t. fst t \<noteq> 0) (timers running_state),
        monitoringIntervals := AList.delete ''u1'' (monitoringIntervals running_state)\<rparr>"
    by blast
  from this c have 2: "stopMonitoring ''u1'' running_state =
      running_state\<lparr>timers := [], monitoringIntervals := []\<rparr>"
    by (rule trans)
  from busy have 3: "stopMonitoring ''u1'' (stopMonitoring ''u1'' running_state) =
      stopMonitoring ''u1'' running_state"
    by blast
  from 1 2 3 show ?thesis by blast
qed

subsection \<open>Rows written by a run\<close>

lemma insertEmailLog_accepted:
  "sink_accepts ev \<Longrightarrow>
   insertEmailLog ev row s = (Inr (), s\<lparr>emailLogs := emailLogs s @ [row]\<rparr>)"
  by (simp add: insertEmailLog_def sink_accepts_def)

lemma insertActivity_accepted:
  "sink_accepts ev \<Longrightarrow>
   insertActivity ev a s = (Inr (), s\<lparr>activities := activities s @ [a]\<rparr>)"
  by (simp add: insertActivity_def sink_accepts_def)

lemma analyzeEmail_store: "analyzeEmail ev rt u c s = (r, s') \<Longrightarrow> same_store s s'"
  by (auto simp: analyzeEmail_def same_store_def Let_def split: option.splits sum.splits if_splits)

lemma generateReply_store: "generateReply ev u c f s = (r, s') \<Longrightarrow> same_store s s'"
  by (auto simp: generateReply_def same_store_def Let_def split: option.splits sum.splits if_splits)

lemma sendEmail_store: "sendEmail ev u t sj b s = (r, s') \<Longrightarrow> same_store s s'"
  by (auto simp: sendEmail_def same_store_def Let_def split: option.splits sum.splits if_splits)

lemma starEmail_store: "starEmail ev u m s = (r, s') \<Longrightarrow> same_store s s'"
  by (auto simp: starEmail_def same_store_def Let_def split: option.splits sum.splits if_splits)

lemma getEmails_store: "getEmails ev u q n s = (r, s') \<Longrightarrow> same_store s s'"
  by (auto simp: getEmails_def same_store_def Let_def split: option.splits sum.splits if_splits)

lemma one_more_rowI:
  "same_store s s1 \<Longrightarrow> one_more_row s t (s1\<lparr>emailLogs := emailLogs s1 @ [t]\<rparr>)"
  by (simp add: one_more_row_def same_store_def)

lemma handleReplyAction_cases [consumes 1, case_names failed sent]:
  assumes sink: "sink_accepts ev"
  obtains (failed) s' where "reply_raises ev rt u email f b s"
      "handleReplyAction ev rt u email f b s = (Inr (), s')"
      "one_more_row s (reply_failed_row u email f) s'"
  | (sent) s' sj rtext where "\<not> reply_raises ev rt u email f b s"
      "handleReplyAction ev rt u email f b s = (Inr (), s')"
      "one_more_row s (reply_sent_row u email f sj rtext) s'"
proof -
  note ins = insertEmailLog_accepted [OF sink]
  obtain r1 s1 where g: "generateReply ev u b f s = (r1, s1)" by force
  note st1 = generateReply_store [OF g]
  show ?thesis
  proof (cases r1)
    case (Inl e)
    with g have "reply_raises ev rt u email f b s"
      and "handleReplyAction ev rt u email f b s =
             (Inr (), s1\<lparr>emailLogs := emailLogs s1 @ [reply_failed_row u email f]\<rparr>)"
      by (simp_all add: handleReplyAction_def handleReplyAction_try_def reply_raises_def ins)
    then show ?thesis using one_more_rowI [OF st1] by (rule failed)
  next
    case r1: (Inr rtext)
    show ?thesis
    proof (cases "getEmailContent rt email")
      case (Inl e)
      with g r1 have "reply_raises ev rt u email f b s"
        and "handleReplyAction ev rt u email f b s =
               (Inr (), s1\<lparr>emailLogs := emailLogs s1 @ [reply_failed_row u email f]\<rparr>)"
        by (simp_all add: handleReplyAction_def handleReplyAction_try_def reply_raises_def ins)
      then show ?thesis using one_more_rowI [OF st1] by (rule failed)
    next
      case c: (Inr content)
      obtain r2 s2 where sd: "sendEmail ev u f (replySubject (c_subject content)) rtext s1 = (r2, s2)"
        by force
      from sendEmail_store [OF sd] st1 have st2: "same_store s s2"
        by (simp add: same_store_def)
      show ?thesis
      proof (cases r2)
        case (Inl e)
        with g r1 c sd have "reply_raises ev rt u email f b s"
          and "handleReplyAction ev rt u email f b s =
                 (Inr (), s2\<lparr>emailLogs := emailLogs s2 @ [reply_failed_row u email f]\<rparr>)"
          by (simp_all add: handleReplyAction_def handleReplyAction_try_def reply_raises_def ins)
        then show ?thesis using one_more_rowI [OF st2] by (rule failed)
      next
        case (Inr x)
        with g r1 c sd have "\<not> reply_raises ev rt u email f b s"
          and "handleReplyAction ev rt u email f b s =
                 (Inr (), s2\<lparr>emailLogs := emailLogs s2 @
                    [reply_sent_row u email f (replySubject (c_subject content)) rtext]\<rparr>)"
          by (simp_all add: handleReplyAction_def handleReplyAction_try_def reply_raises_def ins)
        then show ?thesis using one_more_rowI [OF st2] by (rule sent)
      qed
    qed
  qed
qed

lemma handleStarAction_cases:
  assumes sink: "sink_accepts ev"
  obtains s' status sj where "handleStarAction ev u email s = (Inr (), s')"
      "one_more_row s (star_row u email sj status) s'"
      "status = ''sent'' \<or> status = ''failed''"
proof -
  note ins = insertEmailLog_accepted [OF sink]
  obtain r1 s1 where g: "starEmail ev u (m_id email) s = (r1, s1)" by force
  note st1 = starEmail_store [OF g]
  show ?thesis
  proof (cases r1)
    case (Inl e)
    with g have "handleStarAction ev u email s =
        (Inr (), s1\<lparr>emailLogs := emailLogs s1 @ [star_row u email ''Star failed'' ''failed'']\<rparr>)"
      by (simp add: handleStarAction_def handleStarAction_try_def ins)
    then show ?thesis using one_more_rowI [OF st1] by (rule that) simp
  next
    case (Inr x)
    with g have "handleStarAction ev u email s =
        (Inr (), s1\<lparr>emailLogs := emailLogs s1 @ [star_row u email ''Email starred'' ''sent'']\<rparr>)"
      by (simp add: handleStarAction_def handleStarAction_try_def ins)
    then show ?thesis using one_more_rowI [OF st1] by (rule that) simp
  qed
qed

text \<open>The run of \<open>processEmail\<close> on a message that is classified, with every insert accepted.\<close>

lemma processEmail_classified:
  assumes "sink_accepts ev"
    and "\<not> alreadyProcessed s u email"
    and "getEmailContent rt email = Inr content"
    and "analyzeEmail ev rt u (c_body content) s = (Inr a, s1)"
    and "dispatch ev rt u email content a
           (s1\<lparr>emailLogs := emailLogs s1 @ [pending_row u email content a]\<rparr>) = (Inr (), s3)"
  shows "processEmail ev rt u email s =
           (Inr (), s3\<lparr>activities := activities s3 @ [activity_for u content a]\<rparr>)"
  using assms(2-5)
  by (simp add: processEmail_def processEmail_try_def insertEmailLog_accepted [OF assms(1)]
      insertActivity_accepted [OF assms(1)])

lemma one_more_rowD:
  "one_more_row s t s' \<Longrightarrow>
   emailLogs s' = emailLogs s @ [t] \<and> activities s' = activities s \<and>
   monitoringIntervals s' = monitoringIntervals s \<and> timers s' = timers s \<and>
   nextTimer s' = nextTimer s \<and> userCredentials s' = userCredentials s"
  by (simp add: one_more_row_def same_store_def)

lemma dispatch_reply_or_star:
  assumes "sink_accepts ev" and "action a = ''reply'' \<or> action a = ''star''"
  obtains s' t where "dispatch ev rt u email content a s = (Inr (), s')"
    "one_more_row s t s'" "l_userId t = u" "l_emailId t = m_id email" "l_action t = action a"
    "l_status t = ''sent'' \<or> l_status t = ''failed''"
proof (cases "action a = ''reply''")
  case True
  from assms(1) show ?thesis
  proof (cases rule: handleReplyAction_cases
      [of ev rt u email "c_from content" "c_body content" s])
    case (failed s')
    with True show ?thesis
      by (intro that [of s' "reply_failed_row u email (c_from content)"])
         (simp_all add: dispatch_def reply_failed_row_def)
  next
    case (sent s' sj rtext)
    with True show ?thesis
      by (intro that [of s' "reply_sent_row u email (c_from content) sj rtext"])
         (simp_all add: dispatch_def reply_sent_row_def)
  qed
next
  case False
  with assms(2) have star: "action a = ''star''" by simp
  obtain s' status sj where h: "handleStarAction ev u email s = (Inr (), s')"
      "one_more_row s (star_row u email sj status) s'"
      "status = ''sent'' \<or> status = ''failed''"
    by (rule handleStarAction_cases [OF assms(1)])
  with star False show ?thesis
    by (intro that [of s' "star_row u email sj status"])
       (simp_all add: dispatch_def star_row_def)
qed

text \<open>
  C3, amended: with a database that accepts the inserts, when \<open>processEmail\<close> reaches the
  dispatch with the action \<open>reply\<close> or \<open>star\<close> (the message is not yet processed, its
  content is extracted and it is classified), the run adds to the log exactly the \<open>pending\<close>
  row followed by one terminal row for that message, of status \<open>sent\<close> or \<open>failed\<close>, and
  adds exactly one activity row.
\<close>

theorem processEmail_dispatch_rows:
  assumes "sink_accepts ev"
    and "\<not> alreadyProcessed s u email"
    and "getEmailContent rt email = Inr content"
    and "analyzeEmail ev rt u (c_body content) s = (Inr a, s1)"
    and "action a = ''reply'' \<or> action a = ''star''"
  shows "\<exists>t. emailLogs (snd (processEmail ev rt u email s)) =
               emailLogs s @ [pending_row u email content a, t] \<and>
             l_status (pending_row u email content a) = ''pending'' \<and>
             l_userId t = u \<and> l_emailId t = m_id email \<and> l_action t = action a \<and>
             (l_status t = ''sent'' \<or> l_status t = ''failed'') \<and>
             activities (snd (processEmail ev rt u email s)) =
               activities s @ [activity_for u content a]"
proof -
  let ?s2 = "s1\<lparr>emailLogs := emailLogs s1 @ [pending_row u email content a]\<rparr>"
  from analyzeEmail_store [OF assms(4)]
  have s1: "emailLogs s1 = emailLogs s" "activities s1 = activities s"
    by (simp_all add: same_store_def)
  from assms(1,5) obtain s3 t where d: "dispatch ev rt u email content a ?s2 = (Inr (), s3)"
    and row: "one_more_row ?s2 t s3" and t: "l_userId t = u" "l_emailId t = m_id email"
      "l_action t = action a" "l_status t = ''sent'' \<or> l_status t = ''failed''"
    by (rule dispatch_reply_or_star)
  from processEmail_classified [OF assms(1-4) d]
  have p: "snd (processEmail ev rt u email s) =
      s3\<lparr>activities := activities s3 @ [activity_for u content a]\<rparr>"
    by simp
  from one_more_rowD [OF row] s1
  have "emailLogs s3 = emailLogs s @ [pending_row u email content a, t]"
    and "activities s3 = activities s"
    by simp_all
  with p t show ?thesis
    by (intro exI [of _ t]) (simp add: pending_row_def)
qed

text \<open>
  C4, amended: with a database that accepts the inserts, when something is raised in the
  \<open>try\<close> of the reply handler before the \<open>sent\<close> row is written (the send call fails,
  \<open>generateReply\<close> raises for want of a classifier key, or the content of the message
  cannot be read), the handler returns normally and
  appends to the log, after the rows already there, a new row with action \<open>reply\<close>, status
  \<open>failed\<close> and subject \<open>Reply failed\<close>; and when this happens in a run of \<open>processEmail\<close>
  that dispatched the reply, the \<open>pending\<close> row stays in place before the new row and the
  \<open>email_reply\<close> activity is still recorded. A failed request for the reply text is not
  such a failure: \<open>generateReply\<close> answers it with the default text.
\<close>

theorem reply_failure_rows:
  assumes "sink_accepts ev"
  shows "(reply_raises ev rt u email f b s \<longrightarrow>
            fst (handleReplyAction ev rt u email f b s) = Inr () \<and>
            emailLogs (snd (handleReplyAction ev rt u email f b s)) =
              emailLogs s @
                [\<lparr>l_userId = u, l_emailId = m_id email, l_fromEmail = f,
                  l_subject = Some ''Reply failed'', l_action = ''reply'',
                  l_responseText = None, l_status = ''failed''\<rparr>]) \<and>
         (\<not> alreadyProcessed s u email \<and> getEmailContent rt email = Inr content \<and>
          analyzeEmail ev rt u (c_body content) s = (Inr a, s1) \<and> action a = ''reply'' \<and>
          reply_raises ev rt u email (c_from content) (c_body content)
            (s1\<lparr>emailLogs := emailLogs s1 @ [pending_row u email content a]\<rparr>) \<longrightarrow>
            emailLogs (snd (processEmail ev rt u email s)) =
              emailLogs s @
                [pending_row u email content a,
                 \<lparr>l_userId = u, l_emailId = m_id email, l_fromEmail = c_from content,
                  l_subject = Some ''Reply failed'', l_action = ''reply'',
                  l_responseText = None, l_status = ''failed''\<rparr>] \<and>
            activities (snd (processEmail ev rt u email s)) =
              activities s @ [activity_for u content a] \<and>
            a_type (activity_for u content a) = ''email_reply'')"
proof (intro conjI impI)
  assume r: "reply_raises ev rt u email f b s"
  obtain s' where h: "handleReplyAction ev rt u email f b s = (Inr (), s')"
    and row: "one_more_row s (reply_failed_row u email f) s'"
    using assms r by (cases rule: handleReplyAction_cases [of ev rt u email f b s]) simp_all
  from h show "fst (handleReplyAction ev rt u email f b s) = Inr ()" by simp
  from h one_more_rowD [OF row]
  show "emailLogs (snd (handleReplyAction ev rt u email f b s)) =
              emailLogs s @
                [\<lparr>l_userId = u, l_emailId = m_id email, l_fromEmail = f,
                  l_subject = Some ''Reply failed'', l_action = ''reply'',
                  l_responseText = None, l_status = ''failed''\<rparr>]"
    by (simp add: reply_failed_row_def)
next
  assume h: "\<not> alreadyProcessed s u email \<and> getEmailContent rt email = Inr content \<and>
          analyzeEmail ev rt u (c_body content) s = (Inr a, s1) \<and> action a = ''reply'' \<and>
          reply_raises ev rt u email (c_from content) (c_body content)
            (s1\<lparr>emailLogs := emailLogs s1 @ [pending_row u email content a]\<rparr>)"
  let ?s2 = "s1\<lparr>emailLogs := emailLogs s1 @ [pending_row u email content a]\<rparr>"
  from h have np: "\<not> alreadyProcessed s u email" and c: "getEmailContent rt email = Inr content"
    and an: "analyzeEmail ev rt u (c_body content) s = (Inr a, s1)" and re: "action a = ''reply''"
    and rr: "reply_raises ev rt u email (c_from content) (c_body content) ?s2"
    by simp_all
  from analyzeEmail_store [OF an]
  have s1: "emailLogs s1 = emailLogs s" "activities s1 = activities s"
    by (simp_all add: same_store_def)
  obtain s3 where hd: "handleReplyAction ev rt u email (c_from content) (c_body content) ?s2 =
      (Inr (), s3)" and row: "one_more_row ?s2 (reply_failed_row u email (c_from content)) s3"
    using assms rr
    by (cases rule: handleReplyAction_cases
          [of ev rt u email "c_from content" "c_body content" ?s2])
       simp_all
  from hd re have d: "dispatch ev rt u email content a ?s2 = (Inr (), s3)"
    by (simp add: dispatch_def)
  from processEmail_classified [OF assms np c an d]
  have p: "snd (processEmail ev rt u email s) =
      s3\<lparr>activities := activities s3 @ [activity_for u content a]\<rparr>"
    by simp
  from one_more_rowD [OF row] s1
  have l3: "emailLogs s3 = emailLogs s @ [pending_row u email content a,
                          reply_failed_row u email (c_from content)]"
    and a3: "activities s3 = activities s"
    by simp_all
  from p l3 show "emailLogs (snd (processEmail ev rt u email s)) =
              emailLogs s @
                [pending_row u email content a,
                 \<lparr>l_userId = u, l_emailId = m_id email, l_fromEmail = c_from content,
                  l_subject = Some ''Reply failed'', l_action = ''reply'',
                  l_responseText = None, l_status = ''failed''\<rparr>]"
    by (simp add: reply_failed_row_def)
  from p a3 show "activities (snd (processEmail ev rt u email s)) =
              activities s @ [activity_for u content a]"
    by simp
  from re show "a_type (activity_for u content a) = ''email_reply''"
    by (simp add: activity_for_def)
qed

subsection \<open>The rows of the example runs\<close>

lemma example_sinks:
  "sink_accepts env_reply" "sink_accepts env_star" "sink_accepts env_send_fails"
  by (simp_all add: sink_accepts_def env_reply_def env_star_def env_send_fails_def)

lemma example_not_processed: "\<not> alreadyProcessed example_state ''u1'' example_message"
  by code_simp

lemma example_getEmailContent: "getEmailContent example_rt example_message = Inr example_content"
  by code_simp

lemma example_analyzeEmail:
  "analyzeEmail env_reply example_rt ''u1'' (c_body example_content) example_state =
     (Inr (example_analysis ''reply''), analysed_state)"
  "analyzeEmail env_send_fails example_rt ''u1'' (c_body example_content) example_state =
     (Inr (example_analysis ''reply''), analysed_state)"
  "analyzeEmail env_star example_rt ''u1'' (c_body example_content) example_state =
     (Inr (example_analysis ''star''), analysed_state)"
  by code_simp+

theorem processEmail_dispatch_rows_witness:
  "sink_accepts env_reply \<and> sink_accepts env_star \<and>
   \<not> alreadyProcessed example_state ''u1'' example_message \<and>
   getEmailContent example_rt example_message = Inr example_content \<and>
   analyzeEmail env_reply example_rt ''u1'' (c_body example_content) example_state =
     (Inr (example_analysis ''reply''), analysed_state) \<and>
   (\<exists>t. emailLogs (snd (processEmail env_reply example_rt ''u1'' example_message example_state)) =
          [pending_row ''u1'' example_message example_content (example_analysis ''reply''), t] \<and>
        (l_status t = ''sent'' \<or> l_status t = ''failed'') \<and>
        activities (snd (processEmail env_reply example_rt ''u1'' example_message example_state)) =
          [activity_for ''u1'' example_content (example_analysis ''reply'')]) \<and>
   (\<exists>t. emailLogs (snd (processEmail env_star example_rt ''u1'' example_message example_state)) =
          [pending_row ''u1'' example_message example_content (example_analysis ''star''), t] \<and>
        (l_status t = ''sent'' \<or> l_status t = ''failed'') \<and>
        activities (snd (processEmail env_star example_rt ''u1'' example_message example_state)) =
          [activity_for ''u1'' example_content (example_analysis ''star'')])"
proof -
  have r: "action (example_analysis ''reply'') = ''reply'' \<or>
           action (example_analysis ''reply'') = ''star''"
    and st: "action (example_analysis ''star'') = ''reply'' \<or>
           action (example_analysis ''star'') = ''star''"
    by (simp_all add: example_analysis_def)
  note a = processEmail_dispatch_rows
    [OF example_sinks(1) example_not_processed example_getEmailContent example_analyzeEmail(1) r]
  note b = processEmail_dispatch_rows
    [OF example_sinks(2) example_not_processed example_getEmailContent example_analyzeEmail(3) st]
  have e: "emailLogs example_state = []" "activities example_state = []"
    by (simp_all add: example_state_def)
  from a b show ?thesis
    unfolding e append_Nil
    using example_not_processed example_getEmailContent example_analyzeEmail(1) example_sinks(1,2)
    by blast
qed

text \<open>
  C3, as stated, promises the terminal row and the activity row whenever the reply is
  dispatched. Here the database is lost after it stored the \<open>pending\<close> row: the reply is
  generated and sent, the insert of the \<open>sent\<close> row is rejected, so is the insert of the
  \<open>failed\<close> row in the handler's \<open>catch\<close>, and the run ends in the \<open>catch\<close> of \<open>processEmail\<close>
  with the \<open>pending\<close> row alone and no activity.
\<close>

theorem dispatch_with_lost_sink_counterexample:
  "processEmail env_sink_lost example_rt ''u1'' example_message example_state =
     (Inr (),
      example_state
        \<lparr>calls := [AnalyzeEmail ''sk-key'' ''please send your resume'',
                   GenerateReply ''sk-key'' ''a job seeker'' [] ''please send your resume'',
                   SendEmail ''u1'' ''hr@corp.example'' ''Re: Your application''
                     ''Here is my resume.''],
         emailLogs := [pending_row ''u1'' example_message example_content
                         (example_analysis ''reply'')]\<rparr>) \<and>
   activities example_state = []"
  by code_simp

lemma send_fails_raises:
  "reply_raises env_send_fails example_rt ''u1'' example_message (c_from example_content)
     (c_body example_content)
     (analysed_state\<lparr>emailLogs := emailLogs analysed_state @
        [pending_row ''u1'' example_message example_content (example_analysis ''reply'')]\<rparr>)"
  by code_simp

lemma keyless_raises:
  "reply_raises env_reply example_rt ''u1'' example_message ''hr@corp.example''
     ''please send your resume'' keyless_state"
  "fst (generateReply env_reply ''u1'' ''please send your resume'' ''hr@corp.example''
     keyless_state) = Inl (Error ''OpenAI API key not configured'')"
  by code_simp+

theorem reply_failure_rows_witness:
  "sink_accepts env_reply \<and> sink_accepts env_send_fails \<and>
   fst (generateReply env_reply ''u1'' ''please send your resume'' ''hr@corp.example''
     keyless_state) = Inl (Error ''OpenAI API key not configured'') \<and>
   emailLogs (snd (handleReplyAction env_reply example_rt ''u1'' example_message
       ''hr@corp.example'' ''please send your resume'' keyless_state)) =
     [\<lparr>l_userId = ''u1'', l_emailId = ''m1'', l_fromEmail = ''hr@corp.example'',
       l_subject = Some ''Reply failed'', l_action = ''reply'',
       l_responseText = None, l_status = ''failed''\<rparr>] \<and>
   reply_raises env_send_fails example_rt ''u1'' example_message (c_from example_content)
     (c_body example_content)
     (analysed_state\<lparr>emailLogs := emailLogs analysed_state @
        [pending_row ''u1'' example_message example_content (example_analysis ''reply'')]\<rparr>) \<and>
   emailLogs (snd (processEmail env_send_fails example_rt ''u1'' example_message example_state)) =
     [pending_row ''u1'' example_message example_content (example_analysis ''reply''),
      \<lparr>l_userId = ''u1'', l_emailId = ''m1'', l_fromEmail = ''hr@corp.example'',
       l_subject = Some ''Reply failed'', l_action = ''reply'',
       l_responseText = None, l_status = ''failed''\<rparr>] \<and>
   activities (snd (processEmail env_send_fails example_rt ''u1'' example_message example_state)) =
     [activity_for ''u1'' example_content (example_analysis ''reply'')]"
proof -
  have r: "action (example_analysis ''reply'') = ''reply''"
    by (simp add: example_analysis_def)
  have e: "emailLogs example_state = []" "activities example_state = []"
    "emailLogs keyless_state = []"
    "c_from example_content = ''hr@corp.example''" "m_id example_message = ''m1''"
    by (simp_all add: example_state_def example_content_def example_message_def keyless_state_def)
  note handler = reply_failure_rows
    [OF example_sinks(1), of example_rt "''u1''" example_message "''hr@corp.example''"
       "''please send your resume''" keyless_state]
  note run = reply_failure_rows
    [OF example_sinks(3), of example_rt "''u1''" example_message _ _ example_state
       example_content "example_analysis ''reply''" analysed_state]
  from handler keyless_raises(1)
  have 1: "emailLogs (snd (handleReplyAction env_reply example_rt ''u1'' example_message
       ''hr@corp.example'' ''please send your resume'' keyless_state)) =
     [\<lparr>l_userId = ''u1'', l_emailId = ''m1'', l_fromEmail = ''hr@corp.example'',
       l_subject = Some ''Reply failed'', l_action = ''reply'',
       l_responseText = None, l_status = ''failed''\<rparr>]"
    unfolding e append_Nil by blast
  from run example_not_processed example_getEmailContent example_analyzeEmail(2) r send_fails_raises
  have 2: "emailLogs (snd (processEmail env_send_fails example_rt ''u1'' example_message example_state)) =
     [pending_row ''u1'' example_message example_content (example_analysis ''reply''),
      \<lparr>l_userId = ''u1'', l_emailId = ''m1'', l_fromEmail = ''hr@corp.example'',
       l_subject = Some ''Reply failed'', l_action = ''reply'',
       l_responseText = None, l_status = ''failed''\<rparr>] \<and>
   activities (snd (processEmail env_send_fails example_rt ''u1'' example_message example_state)) =
     [activity_for ''u1'' example_content (example_analysis ''reply'')]"
    unfolding e append_Nil by blast
  from 1 2 example_sinks(1,3) keyless_raises(2) send_fails_raises show ?thesis
    by blast
qed

text \<open>
  C4, as stated, promises the \<open>failed\<close> row on any failure in the generation of the reply.
  Here the request for the reply text fails and the send call succeeds: the handler sends
  the default text and appends a \<open>sent\<close> row, not the \<open>failed\<close> one.
\<close>

theorem reply_generation_failure_counterexample:
  "draft env_draft_fails
     [GenerateReply ''sk-key'' ''a job seeker'' [] ''please send your resume''] = Inl ApiFailure \<and>
   handleReplyAction env_draft_fails example_rt ''u1'' example_message ''hr@corp.example''
       ''please send your resume'' example_state =
     (Inr (),
      example_state
        \<lparr>calls := [GenerateReply ''sk-key'' ''a job seeker'' [] ''please send your resume'',
                   SendEmail ''u1'' ''hr@corp.example'' ''Re: Your application'' default_reply],
         emailLogs := [reply_sent_row ''u1'' example_message ''hr@corp.example''
                         ''Re: Your application'' default_reply]\<rparr>) \<and>
   reply_sent_row ''u1'' example_message ''hr@corp.example'' ''Re: Your application'' default_reply
     \<noteq> reply_failed_row ''u1'' example_message ''hr@corp.example''"
  by code_simp

subsection \<open>Starting\<close>

lemma same_store_sched: "same_store s s' \<Longrightarrow> same_sched s s'"
  by (simp add: same_store_def same_sched_def)

lemma same_sched_trans: "same_sched s s' \<Longrightarrow> same_sched s' s'' \<Longrightarrow> same_sched s s''"
  by (simp add: same_sched_def)

lemma insertEmailLog_sched: "insertEmailLog ev row s = (r, s') \<Longrightarrow> same_sched s s'"
  by (auto simp: insertEmailLog_def same_sched_def split: sum.splits)

lemma insertActivity_sched: "insertActivity ev a s = (r, s') \<Longrightarrow> same_sched s s'"
  by (auto simp: insertActivity_def same_sched_def split: sum.splits)

lemma handleReplyAction_try_sched:
  assumes "handleReplyAction_try ev rt u email f b s = (r, s')"
  shows "same_sched s s'"
proof -
  obtain r1 s1 where g: "generateReply ev u b f s = (r1, s1)" by force
  note st1 = same_store_sched [OF generateReply_store [OF g]]
  show ?thesis
  proof (cases r1)
    case (Inl e)
    with assms g st1 show ?thesis by (simp add: handleReplyAction_try_def)
  next
    case r1: (Inr rtext)
    show ?thesis
    proof (cases "getEmailContent rt email")
      case (Inl e)
      with assms g r1 st1 show ?thesis by (simp add: handleReplyAction_try_def)
    next
      case c: (Inr content)
      obtain r2 s2 where sd: "sendEmail ev u f (replySubject (c_subject content)) rtext s1 = (r2, s2)"
        by force
      from same_store_sched [OF sendEmail_store [OF sd]] st1 have st2: "same_sched s s2"
        by (rule same_sched_trans [rotated])
      show ?thesis
      proof (cases r2)
        case (Inl e)
        with assms g r1 c sd st2 show ?thesis by (simp add: handleReplyAction_try_def)
      next
        case (Inr x)
        with assms g r1 c sd have "insertEmailLog ev
            (reply_sent_row u email f (replySubject (c_subject content)) rtext) s2 = (r, s')"
          by (simp add: handleReplyAction_try_def)
        from st2 insertEmailLog_sched [OF this] show ?thesis by (rule same_sched_trans)
      qed
    qed
  qed
qed

lemma handleReplyAction_sched:
  assumes "handleReplyAction ev rt u email f b s = (r, s')"
  shows "same_sched s s'"
proof -
  obtain r1 s1 where t: "handleReplyAction_try ev rt u email f b s = (r1, s1)" by force
  note st1 = handleReplyAction_try_sched [OF t]
  show ?thesis
  proof (cases r1)
    case (Inl e)
    with assms t have "insertEmailLog ev (reply_failed_row u email f) s1 = (r, s')"
      by (simp add: handleReplyAction_def)
    from st1 insertEmailLog_sched [OF this] show ?thesis by (rule same_sched_trans)
  next
    case (Inr x)
    with assms t st1 show ?thesis by (simp add: handleReplyAction_def)
  qed
qed

lemma handleStarAction_sched:
  assumes "handleStarAction ev u email s = (r, s')"
  shows "same_sched s s'"
proof -
  obtain r0 s0 where g: "starEmail ev u (m_id email) s = (r0, s0)" by force
  note st0 = same_store_sched [OF starEmail_store [OF g]]
  obtain r1 s1 where t: "handleStarAction_try ev u email s = (r1, s1)" by force
  have st1: "same_sched s s1"
  proof (cases r0)
    case (Inl e)
    with t g st0 show ?thesis by (simp add: handleStarAction_try_def)
  next
    case (Inr x)
    with t g have "insertEmailLog ev (star_row u email ''Email starred'' ''sent'') s0 = (r1, s1)"
      by (simp add: handleStarAction_try_def)
    from st0 insertEmailLog_sched [OF this] show ?thesis by (rule same_sched_trans)
  qed
  show ?thesis
  proof (cases r1)
    case (Inl e)
    with assms t have "insertEmailLog ev (star_row u email ''Star failed'' ''failed'') s1 = (r, s')"
      by (simp add: handleStarAction_def)
    from st1 insertEmailLog_sched [OF this] show ?thesis by (rule same_sched_trans)
  next
    case (Inr x)
    with assms t st1 show ?thesis by (simp add: handleStarAction_def)
  qed
qed

lemma dispatch_sched: "dispatch ev rt u email content a s = (r, s') \<Longrightarrow> same_sched s s'"
  by (auto simp: dispatch_def same_sched_def split: if_splits
      dest!: handleReplyAction_sched handleStarAction_sched)

lemma processEmail_try_sched: "processEmail_try ev rt u email s = (r, s') \<Longrightarrow> same_sched s s'"
proof -
  assume p: "processEmail_try ev rt u email s = (r, s')"
  show ?thesis
  proof (cases "alreadyProcessed s u email")
    case True
    with p show ?thesis by (simp add: processEmail_try_def same_sched_def)
  next
    case np: False
    show ?thesis
    proof (cases "getEmailContent rt email")
      case (Inl e)
      with p np show ?thesis by (simp add: processEmail_try_def same_sched_def)
    next
      case c: (Inr content)
      obtain r1 s1 where a: "analyzeEmail ev rt u (c_body content) s = (r1, s1)" by force
      note st1 = same_store_sched [OF analyzeEmail_store [OF a]]
      show ?thesis
      proof (cases r1)
        case (Inl e)
        with p np c a st1 show ?thesis by (simp add: processEmail_try_def)
      next
        case an: (Inr an)
        obtain r2 s2 where w: "insertEmailLog ev (pending_row u email content an) s1 = (r2, s2)"
          by force
        from st1 insertEmailLog_sched [OF w] have st2: "same_sched s s2"
          by (rule same_sched_trans)
        show ?thesis
        proof (cases r2)
          case (Inl e)
          with p np c a an w st2 show ?thesis by (simp add: processEmail_try_def)
        next
          case w2: (Inr x)
          obtain r3 s3 where d: "dispatch ev rt u email content an s2 = (r3, s3)" by force
          from st2 dispatch_sched [OF d] have st3: "same_sched s s3"
            by (rule same_sched_trans)
          show ?thesis
          proof (cases r3)
            case (Inl e)
            with p np c a an w w2 d st3 show ?thesis by (simp add: processEmail_try_def)
          next
            case (Inr y)
            with p np c a an w w2 d
            have "insertActivity ev (activity_for u content an) s3 = (r, s')"
              by (simp add: processEmail_try_def)
            from st3 insertActivity_sched [OF this] show ?thesis by (rule same_sched_trans)
          qed
        qed
      qed
    qed
  qed
qed

lemma processEmail_sched: "same_sched s (snd (processEmail ev rt u email s))"
proof -
  obtain r s' where p: "processEmail_try ev rt u email s = (r, s')" by force
  from processEmail_try_sched [OF p] p show ?thesis
    by (cases r) (simp_all add: processEmail_def)
qed

lemma process_each_sched: "same_sched s (snd (process_each ev rt u emails s))"
proof (induction emails arbitrary: s)
  case Nil
  show ?case by (simp add: same_sched_def)
next
  case (Cons m ms)
  obtain r s1 where p: "processEmail ev rt u m s = (r, s1)" by force
  with processEmail_returns [of ev rt u m s] have r: "r = Inr ()" by simp
  from processEmail_sched [of s ev rt u m] p have "same_sched s s1" by simp
  with Cons [of s1] p r show ?case by (auto intro: same_sched_trans)
qed

lemma processNewEmails_sched: "same_sched s (processNewEmails ev rt u s)"
proof (cases "agent_is_active (getUserCredentials s u)")
  case False
  then show ?thesis
    by (simp add: processNewEmails_def processNewEmails_try_def same_sched_def)
next
  case True
  obtain r s1 where g: "getEmails ev u ''is:unread newer_than:1d'' 10 s = (r, s1)" by force
  note st = same_store_sched [OF getEmails_store [OF g]]
  show ?thesis
  proof (cases r)
    case (Inl e)
    with True g st show ?thesis by (simp add: processNewEmails_def processNewEmails_try_def)
  next
    case (Inr emails)
    with True g st process_each_sched [of s1 ev rt u emails] show ?thesis
      by (auto simp: processNewEmails_def processNewEmails_try_def intro: same_sched_trans)
  qed
qed

lemma same_sched_tasks: "same_sched s s' \<Longrightarrow> active_tasks s' v = active_tasks s v"
  by (simp add: same_sched_def active_tasks_def)

lemma same_sched_inv: "same_sched s s' \<Longrightarrow> sched_inv s \<Longrightarrow> sched_inv s'"
  by (simp add: same_sched_def sched_inv_def)

lemma sched_inv_at_most_one:
  assumes "sched_inv s"
  shows "length (active_tasks s v) \<le> 1"
proof -
  let ?hs = "active_tasks s v"
  from assms have d: "distinct ?hs"
    by (simp add: active_tasks_def sched_inv_def distinct_map_filter)
  from assms have "\<forall>h \<in> set ?hs. map_of (monitoringIntervals s) v = Some h"
    by (auto simp: active_tasks_def sched_inv_def list_all_iff)
  then have same: "h = h'" if "h \<in> set ?hs" "h' \<in> set ?hs" for h h'
    using that by (metis option.inject)
  show ?thesis
  proof (cases ?hs)
    case Nil
    then show ?thesis by simp
  next
    case (Cons h hs)
    show ?thesis
    proof (cases hs)
      case Nil
      with Cons show ?thesis by simp
    next
      case c: (Cons h' hs')
      from Cons c same [of h h'] have "h = h'" by simp
      with d Cons c show ?thesis by simp
    qed
  qed
qed

lemma stop_tasks:
  assumes "sched_inv s"
  shows "active_tasks (stopMonitoring u s) u = []" and "sched_inv (stopMonitoring u s)"
proof -
  show "active_tasks (stopMonitoring u s) u = []"
  proof (cases "map_of (monitoringIntervals s) u")
    case None
    with assms show ?thesis
      by (auto simp: stop_none active_tasks_def sched_inv_def list_all_iff filter_empty_conv)
  next
    case (Some h)
    with assms show ?thesis
      by (auto simp: stop_some active_tasks_def sched_inv_def list_all_iff filter_empty_conv)
  qed
  show "sched_inv (stopMonitoring u s)"
  proof (cases "map_of (monitoringIntervals s) u")
    case None
    with assms show ?thesis by (simp add: stop_none)
  next
    case (Some h)
    with assms show ?thesis
      by (auto simp: stop_some sched_inv_def list_all_iff distinct_map_filter delete_conv')
  qed
qed

lemma startMonitoring_steps:
  "startMonitoring ev rt u s = processNewEmails ev rt u (arm_and_register u (stopMonitoring u s))"
  by (simp add: startMonitoring_def arm_and_register_def Let_def split: prod.split)

lemma setInterval_tasks:
  "active_tasks (snd (setInterval u s)) v = active_tasks s v @ (if v = u then [nextTimer s] else [])"
  by (simp add: setInterval_def active_tasks_def)

lemma arm_tasks:
  "active_tasks (arm_and_register u s) v = active_tasks s v @ (if v = u then [nextTimer s] else [])"
  by (simp add: arm_and_register_def setInterval_def active_tasks_def)

lemma arm_inv:
  assumes "sched_inv s" and "active_tasks s u = []"
  shows "sched_inv (arm_and_register u s)"
proof -
  from assms(2) have nou: "\<forall>t \<in> set (timers s). snd t \<noteq> u"
    by (auto simp: active_tasks_def filter_empty_conv)
  from assms(1) have fresh: "nextTimer s \<notin> fst ` set (timers s)"
    by (auto simp: sched_inv_def list_all_iff)
  from assms(1) nou fresh show ?thesis
    by (auto simp: arm_and_register_def setInterval_def sched_inv_def list_all_iff update_conv')
qed

text \<open>
  C6: in a state of the scheduler in which every armed timer is the one registered for its
  user, \<open>startMonitoring\<close> first leaves the user without any timer (the registered one is
  disarmed and unregistered), then arms and registers a new one. After each of its steps
  every user has at most one armed timer; at the end the user has exactly one, the one
  registered, and the invariant holds again, so that a second \<open>startMonitoring\<close> leaves
  exactly one as well.
\<close>

theorem startMonitoring_single_task:
  assumes "sched_inv s"
  shows "active_tasks (stopMonitoring u s) u = [] \<and>
         (\<forall>v. length (active_tasks (stopMonitoring u s) v) \<le> 1) \<and>
         (\<forall>v. length (active_tasks (snd (setInterval u (stopMonitoring u s))) v) \<le> 1) \<and>
         (\<forall>v. length (active_tasks (startMonitoring ev rt u s) v) \<le> 1) \<and>
         length (active_tasks (startMonitoring ev rt u s) u) = 1 \<and>
         map_of (monitoringIntervals (startMonitoring ev rt u s)) u =
           Some (hd (active_tasks (startMonitoring ev rt u s) u)) \<and>
         sched_inv (startMonitoring ev rt u s) \<and>
         length (active_tasks (startMonitoring ev' rt' u (startMonitoring ev rt u s)) u) = 1"
proof -
  let ?s1 = "stopMonitoring u s"
  let ?s3 = "arm_and_register u ?s1"
  note stopped = stop_tasks [OF assms, of u]
  have one: "length (active_tasks ?s1 v) \<le> 1" for v
    using stopped(2) by (rule sched_inv_at_most_one)
  have armed: "length (active_tasks (snd (setInterval u ?s1)) v) \<le> 1" for v
    using one [of v] stopped(1) by (simp add: setInterval_tasks)
  have inv3: "sched_inv ?s3"
    using stopped(2) stopped(1) by (rule arm_inv)
  have run: "same_sched ?s3 (startMonitoring ev rt u s)"
    by (simp add: startMonitoring_steps processNewEmails_sched)
  have inv4: "sched_inv (startMonitoring ev rt u s)"
    using run inv3 by (rule same_sched_inv)
  have tasks: "active_tasks (startMonitoring ev rt u s) u = [nextTimer ?s1]"
    using stopped(1) by (simp add: same_sched_tasks [OF run] arm_tasks)
  have reg: "map_of (monitoringIntervals (startMonitoring ev rt u s)) u = Some (nextTimer ?s1)"
    using run by (simp add: same_sched_def arm_and_register_def setInterval_def update_conv')
  have again: "length (active_tasks (startMonitoring ev' rt' u s') u) = 1" if "sched_inv s'" for s'
  proof -
    have "same_sched (arm_and_register u (stopMonitoring u s')) (startMonitoring ev' rt' u s')"
      by (simp add: startMonitoring_steps processNewEmails_sched)
    from same_sched_tasks [OF this] stop_tasks(1) [OF that, of u] show ?thesis
      by (simp add: arm_tasks)
  qed
  from stopped(1) one armed inv4 tasks reg again [OF inv4]
    sched_inv_at_most_one [OF inv4]
  show ?thesis by simp
qed

lemma initial_sched_inv: "timers s = [] \<Longrightarrow> sched_inv s"
  by (simp add: sched_inv_def)

theorem startMonitoring_single_task_witness:
  "sched_inv running_state \<and>
   length (active_tasks (startMonitoring env_reply example_rt ''u1'' running_state) ''u1'') = 1 \<and>
   length (active_tasks (startMonitoring env_reply example_rt ''u1''
             (startMonitoring env_reply example_rt ''u1'' example_state)) ''u1'') = 1"
proof -
  have a: "sched_inv running_state" by code_simp
  have b: "sched_inv example_state" by code_simp
  from startMonitoring_single_task [OF a, of "''u1''" env_reply example_rt]
       startMonitoring_single_task [OF b, of "''u1''" env_reply example_rt env_reply example_rt]
       a
  show ?thesis by blast
qed

subsection \<open>Confidence\<close>

lemma clamp_unit: "n \<noteq> NaN \<Longrightarrow> in_unit_interval (Math_max (Fin 0) (Math_min (Fin 1) n))"
  by (cases n) simp_all

lemma clamp_NaN: "Math_max (Fin 0) (Math_min (Fin 1) NaN) = NaN"
  by simp

lemma analyzeEmail_confidence:
  assumes "analyzeEmail ev rt u body s = (Inr a, s')"
  shows "confidence a = NaN \<or> in_unit_interval (confidence a)"
proof -
  have "confidence a = Fin 0 \<or> (\<exists>n. confidence a = Math_max (Fin 0) (Math_min (Fin 1) n))"
    using assms
    by (auto simp: analyzeEmail_def Let_def split: option.splits if_splits sum.splits)
  then show ?thesis
  proof
    assume "confidence a = Fin 0"
    then show ?thesis by simp
  next
    assume "\<exists>n. confidence a = Math_max (Fin 0) (Math_min (Fin 1) n)"
    then obtain n where n: "confidence a = Math_max (Fin 0) (Math_min (Fin 1) n)" ..
    show ?thesis
      using n clamp_unit [of n] by (cases "n = NaN") simp_all
  qed
qed

lemma ToNumber_numeric:
  assumes "r \<in> {JUndefined, JNull} \<or> (\<exists>b. r = JBool b) \<or> (\<exists>n. r = JNumber n)"
  shows "\<exists>n. ToNumber rt (js_or r (JNumber (Fin 0))) = Inr n \<and> n \<noteq> NaN"
proof -
  consider "r = JUndefined" | "r = JNull" | b where "r = JBool b" | n where "r = JNumber n"
    using assms by auto
  then show ?thesis
  proof cases
    case 4
    then show ?thesis by (cases n) (simp_all add: js_or_def)
  qed (simp_all add: js_or_def)
qed

lemma analyzeEmail_numeric_confidence:
  assumes "analyzeEmail ev rt u body s = (Inr a, s')"
    and "getUserCredentials s u = Some c"
    and "classify ev (calls s @ [AnalyzeEmail (the (openaiApiKey c)) body]) = Inr result"
    and "r_confidence result \<in> {JUndefined, JNull} \<or> (\<exists>b. r_confidence result = JBool b) \<or>
         (\<exists>n. r_confidence result = JNumber n)"
  shows "in_unit_interval (confidence a)"
proof -
  from assms(4) obtain n where "ToNumber rt (js_or (r_confidence result) (JNumber (Fin 0))) = Inr n"
    and "n \<noteq> NaN"
    using ToNumber_numeric by blast
  with assms(1-3) have "confidence a = Fin 0 \<or> confidence a = Math_max (Fin 0) (Math_min (Fin 1) n)"
    by (auto simp: analyzeEmail_def Let_def split: option.splits if_splits sum.splits)
  with clamp_unit [OF \<open>n \<noteq> NaN\<close>] show ?thesis by auto
qed

text \<open>
  C7 says that the confidence \<open>analyzeEmail\<close> returns lies between 0 and 1 whatever the
  classifier sent. For every number, and for an absent, null or boolean value, it does
  (\<open>analyzeEmail_numeric_confidence\<close>). A value that does not convert to a number passes
  through \<open>Math.min\<close> and \<open>Math.max\<close> as NaN: here the classifier sent an object as the
  confidence, and the confidence returned is NaN, which is not in the interval.
\<close>

theorem analyzeEmail_confidence_not_a_number:
  "analyzeEmail env_odd_confidence rt ''u1'' ''please send your resume'' example_state =
     (Inr \<lparr>action = ''reply'', confidence = NaN, reasoning = ''asks for a resume''\<rparr>,
      analysed_state) \<and>
   \<not> in_unit_interval NaN"
  by (simp add: analyzeEmail_def getUserCredentials_def example_state_def example_credentials_def
      env_odd_confidence_def env_reply_def js_or_def analysed_state_def)

subsection \<open>The idempotency check\<close>

lemma full_log_not_processed: "\<not> alreadyProcessed full_log_state ''u1'' example_message"
  by code_simp

lemma processEmail_skips: "alreadyProcessed s u email \<Longrightarrow> processEmail ev rt u email s = (Inr (), s)"
  by (simp add: processEmail_def processEmail_try_def)

lemma alreadyProcessed_short_log:
  assumes "length (filter (\<lambda>l. l_userId l = u) (emailLogs s)) \<le> 50"
  shows "alreadyProcessed s u email \<longleftrightarrow>
         (\<exists>l \<in> set (emailLogs s). l_userId l = u \<and> l_emailId l = m_id email)"
  using assms by (auto simp: alreadyProcessed_def getUserEmailLogs_def list_ex_iff)

lemma analyzeEmail_request_fails:
  assumes "getUserCredentials s u = Some c" and "truthy_str (openaiApiKey c)"
    and "classify ev (calls s @ [AnalyzeEmail (the (openaiApiKey c)) body]) = Inl e"
  shows "analyzeEmail ev rt u body s =
           (Inr failed_analysis, s\<lparr>calls := calls s @ [AnalyzeEmail (the (openaiApiKey c)) body]\<rparr>)"
  using assms by (simp add: analyzeEmail_def failed_analysis_def)

lemma processEmail_request_fails:
  assumes "sink_accepts ev"
    and "\<not> alreadyProcessed s u email"
    and "getEmailContent rt email = Inr content"
    and "getUserCredentials s u = Some c" and "truthy_str (openaiApiKey c)"
    and "classify ev (calls s @ [AnalyzeEmail (the (openaiApiKey c)) (c_body content)]) = Inl e"
  shows "processEmail ev rt u email s =
           (Inr (),
            s\<lparr>calls := calls s @ [AnalyzeEmail (the (openaiApiKey c)) (c_body content)],
              emailLogs := emailLogs s @ [pending_row u email content failed_analysis],
              activities := activities s @ [activity_for u content failed_analysis]\<rparr>)"
    and "alreadyProcessed (snd (processEmail ev rt u email s)) u email"
proof -
  note a = analyzeEmail_request_fails [OF assms(4-6), of rt]
  have d: "dispatch ev rt u email content failed_analysis s' = (Inr (), s')" for s'
    by (simp add: dispatch_def failed_analysis_def)
  from processEmail_classified [OF assms(1-3) a d]
  show p: "processEmail ev rt u email s =
           (Inr (),
            s\<lparr>calls := calls s @ [AnalyzeEmail (the (openaiApiKey c)) (c_body content)],
              emailLogs := emailLogs s @ [pending_row u email content failed_analysis],
              activities := activities s @ [activity_for u content failed_analysis]\<rparr>)"
    by simp
  show "alreadyProcessed (snd (processEmail ev rt u email s)) u email"
    unfolding p
    by (simp add: alreadyProcessed_def getUserEmailLogs_def pending_row_def)
qed

text \<open>
  C1 says that a message with a log row for the user is never processed again. The check
  reads the log through \<open>getUserEmailLogs\<close> with its default limit, the 50 newest rows of
  the user. Here the user's log holds a row for the example message followed by the rows of
  fifty later messages: the run does not see the old row, classifies the message again,
  sends a reply and writes two log rows and an activity row.
\<close>

theorem old_entry_reprocessed:
  "list_ex (\<lambda>l. l_userId l = ''u1'' \<and> l_emailId l = m_id example_message)
     (emailLogs full_log_state) \<and>
   emailLogs (snd (processEmail env_reply example_rt ''u1'' example_message full_log_state)) =
     emailLogs full_log_state @
       [pending_row ''u1'' example_message example_content (example_analysis ''reply''),
        reply_sent_row ''u1'' example_message ''hr@corp.example'' ''Re: Your application''
          ''Here is my resume.''] \<and>
   activities (snd (processEmail env_reply example_rt ''u1'' example_message full_log_state)) =
     activities full_log_state @
       [activity_for ''u1'' example_content (example_analysis ''reply'')]"
  by code_simp

text \<open>
  C10 says that a failed classification request leaves the message marked as processed for
  good. The run does write the \<open>pending\<close> row with action \<open>ignore\<close> and the \<open>email_ignore\<close>
  activity, and the next check finds the row (\<open>processEmail_request_fails\<close>). The mark
  lasts while the row is among the 50 newest of the user: after the rows of fifty later
  messages the message is classified and dispatched again.
\<close>

theorem failed_classification_not_permanent:
  "snd (processEmail env_classify_fails example_rt ''u1'' example_message example_state) =
     failed_classification_state \<and>
   alreadyProcessed failed_classification_state ''u1'' example_message \<and>
   full_log_state =
     failed_classification_state
       \<lparr>emailLogs := emailLogs failed_classification_state @ later_rows\<rparr> \<and>
   \<not> alreadyProcessed full_log_state ''u1'' example_message \<and>
   emailLogs (snd (processEmail env_star example_rt ''u1'' example_message full_log_state)) =
     emailLogs full_log_state @
       [pending_row ''u1'' example_message example_content (example_analysis ''star''),
        star_row ''u1'' example_message ''Email starred'' ''sent'']"
  by code_simp

subsection \<open>A batch with a broken message\<close>


end
